theory Spec2Isabelle
  imports Main
begin

section \<open>The tracking hook \<open>useAnalytics\<close> of analytics-nextjs\<close>

text \<open>
  The source is \<^verbatim>\<open>packages/analytics-nextjs/src/hooks/useAnalytics.ts\<close>, a React hook.
  One render of the hook reads the ambient context, refreshes the reference cell
  \<^verbatim>\<open>analyticsRef\<close>, builds the callbacks \<^verbatim>\<open>identify\<close>, \<^verbatim>\<open>alias\<close>, \<^verbatim>\<open>page\<close>, \<^verbatim>\<open>track\<close>
  and \<^verbatim>\<open>user\<close>, and registers two effects. The model passes the mutable state (the
  reference cell, the local-storage slot, the queue, the client objects) explicitly as
  a record \<open>world\<close>; everything a callback captures from its render is the record
  \<open>analytics_context\<close> it is applied to.
\<close>

subsection \<open>Data\<close>

text \<open>
  Modelled from the spec: the enumeration \<^verbatim>\<open>TrackingPolicy\<close> is imported from
  \<^verbatim>\<open>../types\<close>, which is not among the sources. The spec lists it as
  \<open>{DEFAULT, CONSENT_TO_IDENTIFY, \<dots>}\<close>; \<open>OTHER_POLICY\<close> stands for the members
  it does not name.
\<close>

datatype TrackingPolicy = DEFAULT | CONSENT_TO_IDENTIFY | OTHER_POLICY

text \<open>
  JavaScript values as far as the hook builds or forwards them. An object is the list of
  its own properties in insertion order. \<open>JPolicy\<close> is a member of the enumeration,
  whose run-time representation is not in the sources.
\<close>

datatype jsval =
    JNull
  | JBool bool
  | JNum int
  | JStr string
  | JPolicy TrackingPolicy
  | JObj "(string \<times> jsval) list"

type_synonym obj = "(string \<times> jsval) list"

text \<open>A callback handed in by the caller is opaque: it is known by a token.\<close>

type_synonym callback = nat

text \<open>A reference to an analytics client object.\<close>

type_synonym client_ref = nat

text \<open>The object \<^verbatim>\<open>{ context: { library: { name, version }, userAgent? } }\<close>.\<close>

record library_stamp =
  name :: string
  version :: string

record options_context =
  library :: library_stamp
  userAgent :: "string option"

record options =
  options_context :: options_context

text \<open>
  Modelled from the spec: the type \<^verbatim>\<open>DeferredIdentity\<close> is imported from \<^verbatim>\<open>../types\<close>,
  which is not among the sources. The spec gives \<open>{ userId, traits }\<close>; the consent
  effect stores \<^verbatim>\<open>{ userId: id }\<close>, so \<open>traits\<close> may be missing.
\<close>

record DeferredIdentity =
  userId :: string
  traits :: "obj option"

text \<open>
  Modelled from the spec: the analytics client is an external object with the capability
  set \<open>identify, alias, page, track, user\<close>, each of which may be absent. A capability
  that is present either returns or throws when called; the client keeps a local user id,
  which \<^verbatim>\<open>user().id()\<close> reads and \<^verbatim>\<open>user().id(v)\<close> overwrites. \<open>received\<close> lists the
  calls made on the client, oldest first.
\<close>

datatype behaviour = Returns | Throws

datatype client_call =
    Identify string obj options "callback option"
  | Alias string string options
  | Page "string option" "string option" obj options "callback option"
  | Track string obj options "callback option"
  | UserIdGet
  | UserIdSet "string option"

record client =
  m_identify :: "behaviour option"
  m_alias :: "behaviour option"
  m_page :: "behaviour option"
  m_track :: "behaviour option"
  m_user :: bool
  user_id :: "string option"
  received :: "client_call list"

text \<open>What \<^verbatim>\<open>useAnalyticsContext()\<close> returns to one render.\<close>

record analytics_context =
  analytics :: "client_ref option"
  consent :: bool
  isEnabled :: bool
  newsroom_uuid :: string
  story_uuid :: "string option"
  trackingPolicy :: TrackingPolicy

text \<open>
  A queued closure, defunctionalised: the constructor is the callback that created it and
  the arguments are the variables it captured. The captured \<^verbatim>\<open>buildOptions\<close> is the one of
  the render that created the callback; it depends on that render's \<^verbatim>\<open>consent\<close> only, which
  is the \<open>bool\<close>. The cell \<^verbatim>\<open>analyticsRef\<close> is captured by reference and is therefore
  not part of the closure.
\<close>

datatype pending =
    IdentifyClosure string obj bool "callback option"
  | AliasClosure string string bool
  | PageClosure "string option" "string option" obj bool "callback option"
  | TrackClosure string obj bool "callback option"

text \<open>A line written by \<^verbatim>\<open>console.log\<close>; \<^verbatim>\<open>stringify\<close> is kept symbolic.\<close>

datatype log_line =
    LogIdentify string obj
  | LogAlias string string
  | LogPage "string option" "string option" obj
  | LogTrack string obj

text \<open>
  The mutable state around the hook: the cell of \<^verbatim>\<open>useLatest\<close>, the slot of
  \<^verbatim>\<open>useLocalStorage\<close>, the list of \<^verbatim>\<open>useQueue\<close>, the client objects, the console and the
  callbacks invoked so far. \<open>lib_version\<close> is the constant imported from \<^verbatim>\<open>../version\<close>,
  \<open>navigator_userAgent\<close> is \<^verbatim>\<open>navigator.userAgent\<close> and \<open>production\<close> says whether
  \<^verbatim>\<open>process.env.NODE_ENV\<close> is \<^verbatim>\<open>'production'\<close>; the hook only reads these three.
\<close>

record world =
  analyticsRef_current :: "client_ref option"
  deferredIdentity :: "DeferredIdentity option"
  queue :: "pending list"
  clients :: "client_ref \<Rightarrow> client"
  console :: "log_line list"
  invoked :: "callback list"
  lib_version :: string
  navigator_userAgent :: string
  production :: bool

subsection \<open>The hooks of react-use\<close>

text \<open>
  Modelled from the spec: \<^verbatim>\<open>useLatest\<close>, \<^verbatim>\<open>useLocalStorage\<close> and \<^verbatim>\<open>useQueue\<close> come from
  the package react-use, which is not among the sources. The spec describes a cell that
  always points at the most recently known client, a single persisted value that is set
  or removed, and a first-in first-out queue whose oldest entry is the first.

  \<^verbatim>\<open>useLatest(analytics)\<close> stores the value of the current render in the cell.
\<close>

definition useLatest :: "analytics_context \<Rightarrow> world \<Rightarrow> world" where
  "useLatest ctx w = w\<lparr>analyticsRef_current := analytics ctx\<rparr>"

text \<open>\<^verbatim>\<open>useLocalStorage\<close>: one value under a fixed key, set or removed.\<close>

definition setDeferredIdentity :: "DeferredIdentity \<Rightarrow> world \<Rightarrow> world" where
  "setDeferredIdentity d w = w\<lparr>deferredIdentity := Some d\<rparr>"

definition removeDeferredIdentity :: "world \<Rightarrow> world" where
  "removeDeferredIdentity w = w\<lparr>deferredIdentity := None\<rparr>"

text \<open>
  \<^verbatim>\<open>useQueue\<close>: \<open>add\<close> appends, \<open>remove\<close> drops the first element (of an empty list,
  nothing), \<open>first\<close> is the element at index 0 or undefined.
\<close>

definition addToQueue :: "pending \<Rightarrow> world \<Rightarrow> world" where
  "addToQueue f w = w\<lparr>queue := queue w @ [f]\<rparr>"

definition removeFromQueue :: "world \<Rightarrow> world" where
  "removeFromQueue w = w\<lparr>queue := (case queue w of [] \<Rightarrow> [] | first # rest \<Rightarrow> rest)\<rparr>"

definition firstInQueue :: "world \<Rightarrow> pending option" where
  "firstInQueue w = (case queue w of [] \<Rightarrow> None | first # rest \<Rightarrow> Some first)"

subsection \<open>The callbacks of one render\<close>

text \<open>
  \<^verbatim>\<open>buildOptions\<close>: the library stamp always, \<^verbatim>\<open>userAgent\<close> only under consent. The
  argument is the \<^verbatim>\<open>consent\<close> of the render that created the callback.
\<close>

definition buildOptions :: "bool \<Rightarrow> world \<Rightarrow> options" where
  "buildOptions c w =
     (let context0 = \<lparr>library = \<lparr>name = ''@prezly/analytics-next'', version = lib_version w\<rparr>,
                       userAgent = None\<rparr>;
          context1 = (if c then context0\<lparr>userAgent := Some (navigator_userAgent w)\<rparr>
                      else context0)
      in \<lparr>options_context = context1\<rparr>)"

text \<open>
  The object \<^verbatim>\<open>{ ...traits, prezly: v }\<close>: a property that \<open>traits\<close> already has keeps
  its place and takes the new value, a new one goes to the end.
\<close>

fun obj_put :: "string \<Rightarrow> jsval \<Rightarrow> obj \<Rightarrow> obj" where
  "obj_put k v [] = [(k, v)]"
| "obj_put k v ((k', v') # kvs) =
     (if k' = k then (k', v) # kvs else (k', v') # obj_put k v kvs)"

text \<open>
  \<^verbatim>\<open>injectPrezlyMeta\<close>. \<^verbatim>\<open>storyUuid && { story: storyUuid }\<close> spreads nothing when the
  story is missing or its uuid is the empty string.
\<close>

definition injectPrezlyMeta :: "analytics_context \<Rightarrow> obj \<Rightarrow> obj" where
  "injectPrezlyMeta ctx traits0 =
     obj_put ''prezly''
       (JObj ([(''newsroom'', JStr (newsroom_uuid ctx))]
              @ (case story_uuid ctx of
                   None \<Rightarrow> []
                 | Some storyUuid \<Rightarrow> if storyUuid = [] then [] else [(''story'', JStr storyUuid)])
              @ (if trackingPolicy ctx \<noteq> DEFAULT
                 then [(''tracking_policy'', JPolicy (trackingPolicy ctx))] else [])))
       traits0"

definition console_log :: "log_line \<Rightarrow> world \<Rightarrow> world" where
  "console_log l w = (if production w then w else w\<lparr>console := console w @ [l]\<rparr>)"

definition invoke :: "callback \<Rightarrow> world \<Rightarrow> world" where
  "invoke cb w = w\<lparr>invoked := invoked w @ [cb]\<rparr>"

text \<open>\<^verbatim>\<open>identify(userId, traits = {}, callback?)\<close> of the render with context \<open>ctx\<close>.\<close>

definition identify ::
  "analytics_context \<Rightarrow> string \<Rightarrow> obj option \<Rightarrow> callback option \<Rightarrow> world \<Rightarrow> world" where
  "identify ctx uid traits0 cb w =
     (let extendedTraits = injectPrezlyMeta ctx (case traits0 of None \<Rightarrow> [] | Some t \<Rightarrow> t);
          w1 = console_log (LogIdentify uid extendedTraits) w
      in if trackingPolicy ctx = CONSENT_TO_IDENTIFY \<and> \<not> consent ctx
         then (let w2 = setDeferredIdentity \<lparr>userId = uid, traits = Some extendedTraits\<rparr> w1
               in case cb of None \<Rightarrow> w2 | Some f \<Rightarrow> invoke f w2)
         else addToQueue (IdentifyClosure uid extendedTraits (consent ctx) cb) w1)"

text \<open>\<^verbatim>\<open>alias(userId, previousId)\<close> (\<open>alias\<close> alone is a keyword of Isabelle).\<close>

definition alias' :: "analytics_context \<Rightarrow> string \<Rightarrow> string \<Rightarrow> world \<Rightarrow> world" where
  "alias' ctx uid previousId w =
     addToQueue (AliasClosure uid previousId (consent ctx)) (console_log (LogAlias uid previousId) w)"

text \<open>\<^verbatim>\<open>page(category?, name?, properties = {}, callback?)\<close>.\<close>

definition page ::
  "analytics_context \<Rightarrow> string option \<Rightarrow> string option \<Rightarrow> obj option \<Rightarrow> callback option
     \<Rightarrow> world \<Rightarrow> world" where
  "page ctx category pname properties cb w =
     (let extendedProperties =
            injectPrezlyMeta ctx (case properties of None \<Rightarrow> [] | Some p \<Rightarrow> p)
      in addToQueue (PageClosure category pname extendedProperties (consent ctx) cb)
           (console_log (LogPage category pname extendedProperties) w))"

text \<open>\<^verbatim>\<open>track(event, properties = {}, callback?)\<close>.\<close>

definition track ::
  "analytics_context \<Rightarrow> string \<Rightarrow> obj option \<Rightarrow> callback option \<Rightarrow> world \<Rightarrow> world" where
  "track ctx event properties cb w =
     (let extendedProperties =
            injectPrezlyMeta ctx (case properties of None \<Rightarrow> [] | Some p \<Rightarrow> p)
      in addToQueue (TrackClosure event extendedProperties (consent ctx) cb)
           (console_log (LogTrack event extendedProperties) w))"

text \<open>
  \<^verbatim>\<open>user()\<close>: the client's user API when \<^verbatim>\<open>analytics\<close> (the value of the render, not the
  cell) and its \<^verbatim>\<open>user\<close> exist, else the fake one whose \<^verbatim>\<open>id()\<close> returns null whatever it
  is given.
\<close>

datatype user_api = ClientUser client_ref | FakeUser

definition user :: "analytics_context \<Rightarrow> world \<Rightarrow> user_api" where
  "user ctx w =
     (case analytics ctx of
        None \<Rightarrow> FakeUser
      | Some a \<Rightarrow> if m_user (clients w a) then ClientUser a else FakeUser)"

definition record_call :: "client_ref \<Rightarrow> client_call \<Rightarrow> world \<Rightarrow> world" where
  "record_call a c w =
     w\<lparr>clients := (clients w)(a := (clients w a)\<lparr>received := received (clients w a) @ [c]\<rparr>)\<rparr>"

text \<open>\<^verbatim>\<open>user().id()\<close> and \<^verbatim>\<open>user().id(v)\<close>.\<close>

fun id_get :: "user_api \<Rightarrow> world \<Rightarrow> string option \<times> world" where
  "id_get FakeUser w = (None, w)"
| "id_get (ClientUser a) w = (user_id (clients w a), record_call a UserIdGet w)"

fun id_set :: "user_api \<Rightarrow> string option \<Rightarrow> world \<Rightarrow> world" where
  "id_set FakeUser v w = w"
| "id_set (ClientUser a) v w =
     record_call a (UserIdSet v)
       (w\<lparr>clients := (clients w)(a := (clients w a)\<lparr>user_id := v\<rparr>)\<rparr>)"

subsection \<open>Running a queued closure\<close>

text \<open>How a statement ends: normally, or by an exception that leaves the enclosing function.\<close>

datatype completion = Normal | Thrown

definition call_client ::
  "client_ref \<Rightarrow> client_call \<Rightarrow> behaviour \<Rightarrow> world \<Rightarrow> completion \<times> world" where
  "call_client a c b w = (case b of Returns \<Rightarrow> Normal | Throws \<Rightarrow> Thrown, record_call a c w)"

text \<open>
  The body of the closure. It reads \<^verbatim>\<open>analyticsRef.current\<close> in the world it runs in, and
  calls \<^verbatim>\<open>buildOptions()\<close> of the render it was created in.
\<close>

fun run :: "pending \<Rightarrow> world \<Rightarrow> completion \<times> world" where
  "run (IdentifyClosure uid extendedTraits c cb) w =
     (case analyticsRef_current w of
        None \<Rightarrow> (Normal, w)
      | Some a \<Rightarrow>
          (case m_identify (clients w a) of
             None \<Rightarrow> (Normal, w)
           | Some b \<Rightarrow> call_client a (Identify uid extendedTraits (buildOptions c w) cb) b w))"
| "run (AliasClosure uid previousId c) w =
     (case analyticsRef_current w of
        None \<Rightarrow> (Normal, w)
      | Some a \<Rightarrow>
          (case m_alias (clients w a) of
             None \<Rightarrow> (Normal, w)
           | Some b \<Rightarrow> call_client a (Alias uid previousId (buildOptions c w)) b w))"
| "run (PageClosure category pname extendedProperties c cb) w =
     (case analyticsRef_current w of
        None \<Rightarrow> (Normal, w)
      | Some a \<Rightarrow>
          (case m_page (clients w a) of
             None \<Rightarrow> (Normal, w)
           | Some b \<Rightarrow>
               call_client a (Page category pname extendedProperties (buildOptions c w) cb) b w))"
| "run (TrackClosure event extendedProperties c cb) w =
     (case analyticsRef_current w of
        None \<Rightarrow> (Normal, w)
      | Some a \<Rightarrow>
          (case m_track (clients w a) of
             None \<Rightarrow> (Normal, w)
           | Some b \<Rightarrow> call_client a (Track event extendedProperties (buildOptions c w) cb) b w))"

subsection \<open>The effects\<close>

text \<open>
  The first \<^verbatim>\<open>useEffect\<close>: when \<^verbatim>\<open>analytics\<close> and \<^verbatim>\<open>firstInQueue\<close> exist, call the closure,
  then remove it. An exception thrown by the closure leaves the effect before the removal.
\<close>

definition drain_effect :: "analytics_context \<Rightarrow> world \<Rightarrow> completion \<times> world" where
  "drain_effect ctx w =
     (case analytics ctx of
        None \<Rightarrow> (Normal, w)
      | Some a \<Rightarrow>
          (case firstInQueue w of
             None \<Rightarrow> (Normal, w)
           | Some f \<Rightarrow>
               (case run f w of
                  (Thrown, w') \<Rightarrow> (Thrown, w')
                | (Normal, w') \<Rightarrow> (Normal, removeFromQueue w'))))"

text \<open>\<^verbatim>\<open>if (id)\<close>: null, undefined and the empty string are falsy.\<close>

definition truthy :: "string option \<Rightarrow> bool" where
  "truthy v = (case v of None \<Rightarrow> False | Some x \<Rightarrow> x \<noteq> [])"

text \<open>The second \<^verbatim>\<open>useEffect\<close>.\<close>

definition consent_effect :: "analytics_context \<Rightarrow> world \<Rightarrow> world" where
  "consent_effect ctx w =
     (if consent ctx
      then (case deferredIdentity w of
              None \<Rightarrow> w
            | Some d \<Rightarrow> removeDeferredIdentity (identify ctx (userId d) (traits d) None w))
      else (case id_get (user ctx w) w of
              (uid, w1) \<Rightarrow>
                (let w2 = (if truthy uid
                           then setDeferredIdentity \<lparr>userId = the uid, traits = None\<rparr> w1
                           else w1)
                 in id_set (user ctx w2) None w2)))"

text \<open>
  Both effects of one commit, in the order the hook declares them. They stand before the
  test of \<^verbatim>\<open>isEnabled\<close> in the hook's body.
\<close>

definition effects :: "analytics_context \<Rightarrow> world \<Rightarrow> completion \<times> world" where
  "effects ctx w =
     (case drain_effect ctx w of
        (Thrown, w') \<Rightarrow> (Thrown, w')
      | (Normal, w') \<Rightarrow> (Normal, consent_effect ctx w'))"

text \<open>\<open>n\<close> runs of the first effect; a run that throws ends the sequence.\<close>

fun drain_ticks :: "nat \<Rightarrow> analytics_context \<Rightarrow> world \<Rightarrow> completion \<times> world" where
  "drain_ticks 0 ctx w = (Normal, w)"
| "drain_ticks (Suc n) ctx w =
     (case drain_effect ctx w of
        (Thrown, w') \<Rightarrow> (Thrown, w')
      | (Normal, w') \<Rightarrow> drain_ticks n ctx w')"

subsection \<open>What the hook returns\<close>

record api =
  api_alias :: "string \<Rightarrow> string \<Rightarrow> world \<Rightarrow> world"
  api_identify :: "string \<Rightarrow> obj option \<Rightarrow> callback option \<Rightarrow> world \<Rightarrow> world"
  api_newsroom :: "string option"
  api_page ::
    "string option \<Rightarrow> string option \<Rightarrow> obj option \<Rightarrow> callback option \<Rightarrow> world \<Rightarrow> world"
  api_track :: "string \<Rightarrow> obj option \<Rightarrow> callback option \<Rightarrow> world \<Rightarrow> world"
  api_user :: "world \<Rightarrow> user_api"

text \<open>
  The two \<^verbatim>\<open>return\<close> statements. The disabled object has no \<^verbatim>\<open>newsroom\<close>, and its four
  tracking functions are \<^verbatim>\<open>() => {}\<close>.
\<close>

definition useAnalytics :: "analytics_context \<Rightarrow> api" where
  "useAnalytics ctx =
     (if \<not> isEnabled ctx
      then \<lparr>api_alias = (\<lambda>_ _ w. w),
            api_identify = (\<lambda>_ _ _ w. w),
            api_newsroom = None,
            api_page = (\<lambda>_ _ _ _ w. w),
            api_track = (\<lambda>_ _ _ w. w),
            api_user = user ctx\<rparr>
      else \<lparr>api_alias = alias' ctx,
            api_identify = identify ctx,
            api_newsroom = Some (newsroom_uuid ctx),
            api_page = page ctx,
            api_track = track ctx,
            api_user = user ctx\<rparr>)"

text \<open>A call of one of the four queueing callbacks, as data, to speak of sequences of calls.\<close>

datatype api_call =
    CallIdentify string "obj option" "callback option"
  | CallAlias string string
  | CallPage "string option" "string option" "obj option" "callback option"
  | CallTrack string "obj option" "callback option"

fun issue :: "analytics_context \<Rightarrow> api_call \<Rightarrow> world \<Rightarrow> world" where
  "issue ctx (CallIdentify uid traits0 cb) w = identify ctx uid traits0 cb w"
| "issue ctx (CallAlias uid previousId) w = alias' ctx uid previousId w"
| "issue ctx (CallPage category pname properties cb) w = page ctx category pname properties cb w"
| "issue ctx (CallTrack event properties cb) w = track ctx event properties cb w"

subsection \<open>Notions used to state the properties\<close>

text \<open>The enriched payload: the default \<^verbatim>\<open>{}\<close> of a missing argument, then the metadata.\<close>

definition enrich :: "analytics_context \<Rightarrow> obj option \<Rightarrow> obj" where
  "enrich ctx t = injectPrezlyMeta ctx (case t of None \<Rightarrow> [] | Some p \<Rightarrow> p)"

text \<open>A sequence of calls of \<^verbatim>\<open>identify\<close>, each given as (userId, traits, callback).\<close>

definition identify_calls ::
  "analytics_context \<Rightarrow> (string \<times> obj option \<times> callback option) list \<Rightarrow> world \<Rightarrow> world" where
  "identify_calls ctx cs w = fold (\<lambda>(uid, traits0, cb). identify ctx uid traits0 cb) cs w"

text \<open>
  The closure a call leaves in the queue, the client method a closure looks for, and the
  call it makes on the client when it runs in the world \<open>w\<close>.
\<close>

fun closure_of :: "analytics_context \<Rightarrow> api_call \<Rightarrow> pending" where
  "closure_of ctx (CallIdentify uid traits0 cb) =
     IdentifyClosure uid (enrich ctx traits0) (consent ctx) cb"
| "closure_of ctx (CallAlias uid previousId) = AliasClosure uid previousId (consent ctx)"
| "closure_of ctx (CallPage category pname properties cb) =
     PageClosure category pname (enrich ctx properties) (consent ctx) cb"
| "closure_of ctx (CallTrack event properties cb) =
     TrackClosure event (enrich ctx properties) (consent ctx) cb"

fun method_of :: "pending \<Rightarrow> client \<Rightarrow> behaviour option" where
  "method_of (IdentifyClosure uid t c cb) cl = m_identify cl"
| "method_of (AliasClosure uid previousId c) cl = m_alias cl"
| "method_of (PageClosure category pname t c cb) cl = m_page cl"
| "method_of (TrackClosure event t c cb) cl = m_track cl"

fun call_of :: "pending \<Rightarrow> world \<Rightarrow> client_call" where
  "call_of (IdentifyClosure uid t c cb) w = Identify uid t (buildOptions c w) cb"
| "call_of (AliasClosure uid previousId c) w = Alias uid previousId (buildOptions c w)"
| "call_of (PageClosure category pname t c cb) w = Page category pname t (buildOptions c w) cb"
| "call_of (TrackClosure event t c cb) w = Track event t (buildOptions c w) cb"

fun options_of :: "client_call \<Rightarrow> options option" where
  "options_of (Identify uid t opts cb) = Some opts"
| "options_of (Alias uid previousId opts) = Some opts"
| "options_of (Page category pname t opts cb) = Some opts"
| "options_of (Track event t opts cb) = Some opts"
| "options_of UserIdGet = None"
| "options_of (UserIdSet v) = None"

text \<open>The consent gate of \<^verbatim>\<open>identify\<close> is open; the other callbacks have none.\<close>

fun gate_open :: "analytics_context \<Rightarrow> api_call \<Rightarrow> bool" where
  "gate_open ctx (CallIdentify uid traits0 cb) =
     (\<not> (trackingPolicy ctx = CONSENT_TO_IDENTIFY \<and> \<not> consent ctx))"
| "gate_open ctx (CallAlias uid previousId) = True"
| "gate_open ctx (CallPage category pname properties cb) = True"
| "gate_open ctx (CallTrack event properties cb) = True"

text \<open>No method that the client has throws.\<close>

definition quiet :: "client \<Rightarrow> bool" where
  "quiet cl =
     (m_identify cl \<noteq> Some Throws \<and> m_alias cl \<noteq> Some Throws
      \<and> m_page cl \<noteq> Some Throws \<and> m_track cl \<noteq> Some Throws)"

text \<open>The calls that a list of closures makes on a client, in the order of the list.\<close>

definition fired :: "client \<Rightarrow> world \<Rightarrow> pending list \<Rightarrow> client_call list" where
  "fired cl w fs = map (\<lambda>f. call_of f w) (filter (\<lambda>f. method_of f cl \<noteq> None) fs)"

subsection \<open>Concrete inputs\<close>

text \<open>
  A client with every capability, a world without queued calls in which every reference
  points to such a client, and four contexts: consent pending under the policy
  \<open>CONSENT_TO_IDENTIFY\<close>, consent given with no client yet, a later render with a client
  and without consent, and a disabled render.
\<close>

definition example_client :: client where
  "example_client =
     \<lparr>m_identify = Some Returns, m_alias = Some Returns, m_page = Some Returns,
      m_track = Some Returns, m_user = True, user_id = Some ''u7'', received = []\<rparr>"

definition example_world :: world where
  "example_world =
     \<lparr>analyticsRef_current = None, deferredIdentity = None, queue = [],
      clients = (\<lambda>_. example_client), console = [], invoked = [],
      lib_version = ''2.1.0'', navigator_userAgent = ''Mozilla/5.0'', production = False\<rparr>"

definition example_context :: analytics_context where
  "example_context =
     \<lparr>analytics = None, consent = False, isEnabled = True, newsroom_uuid = ''n1'',
      story_uuid = None, trackingPolicy = CONSENT_TO_IDENTIFY\<rparr>"

definition example_open :: analytics_context where
  "example_open =
     \<lparr>analytics = None, consent = True, isEnabled = True, newsroom_uuid = ''n1'',
      story_uuid = Some ''s1'', trackingPolicy = DEFAULT\<rparr>"

definition example_later :: analytics_context where
  "example_later =
     \<lparr>analytics = Some 0, consent = False, isEnabled = True, newsroom_uuid = ''n1'',
      story_uuid = Some ''s1'', trackingPolicy = DEFAULT\<rparr>"

definition example_disabled :: analytics_context where
  "example_disabled =
     \<lparr>analytics = Some 0, consent = False, isEnabled = False, newsroom_uuid = ''n1'',
      story_uuid = None, trackingPolicy = DEFAULT\<rparr>"

text \<open>
  Worlds for particular cases: a client whose \<open>track\<close> throws, with two queued calls; a
  stored deferred identity; a client whose user id is the empty string; a client without
  a user id, with a queued call.
\<close>

definition throwing_world :: world where
  "throwing_world =
     example_world
       \<lparr>analyticsRef_current := Some 0,
        queue := [TrackClosure ''click'' [] True None, AliasClosure ''u1'' ''u0'' True],
        clients := (\<lambda>_. example_client\<lparr>m_track := Some Throws\<rparr>)\<rparr>"

definition deferred_world :: world where
  "deferred_world =
     example_world
       \<lparr>deferredIdentity :=
          Some \<lparr>userId = ''u1'',
                traits = Some [(''plan'', JStr ''pro''),
                               (''prezly'', JObj [(''newsroom'', JStr ''n0'')])]\<rparr>\<rparr>"

definition empty_id_world :: world where
  "empty_id_world = example_world\<lparr>clients := (\<lambda>_. example_client\<lparr>user_id := Some []\<rparr>)\<rparr>"

definition null_id_world :: world where
  "null_id_world =
     example_world
       \<lparr>analyticsRef_current := Some 0,
        queue := [TrackClosure ''click'' [] True None],
        clients := (\<lambda>_. example_client\<lparr>user_id := None\<rparr>)\<rparr>"

text \<open>The world of the examples with a client whose \<open>track\<close> throws and nothing queued.\<close>

definition track_throws_world :: world where
  "track_throws_world =
     example_world\<lparr>clients := (\<lambda>_. example_client\<lparr>m_track := Some Throws\<rparr>)\<rparr>"

section \<open>Properties\<close>

text \<open>The definitions of the concrete inputs most used below.\<close>

lemmas example_defs =
  example_open_def example_later_def example_world_def example_client_def example_context_def

subsection \<open>Options\<close>

text \<open>
  C7. For every invocation of \<open>buildOptions\<close>, the returned object has a \<open>userAgent\<close>
  field if and only if consent is true, and the library name and version stamp is there
  whatever the consent.
\<close>

theorem buildOptions_userAgent_iff_consent:
  "(userAgent (options_context (buildOptions c w)) \<noteq> None) = c
   \<and> library (options_context (buildOptions c w))
       = \<lparr>name = ''@prezly/analytics-next'', version = lib_version w\<rparr>"
  by (simp add: buildOptions_def Let_def)

subsection \<open>Identification without consent\<close>

lemma identify_gated:
  assumes "trackingPolicy ctx = CONSENT_TO_IDENTIFY" and "\<not> consent ctx"
  shows "identify ctx uid tr cb w =
     (console_log (LogIdentify uid (enrich ctx tr)) w)
       \<lparr>deferredIdentity := Some \<lparr>userId = uid, traits = Some (enrich ctx tr)\<rparr>,
        invoked := invoked w @ (case cb of None \<Rightarrow> [] | Some f \<Rightarrow> [f])\<rparr>"
  using assms
  by (cases cb) (simp_all add: identify_def enrich_def Let_def setDeferredIdentity_def invoke_def console_log_def)

lemma identify_calls_gated_frame:
  assumes "trackingPolicy ctx = CONSENT_TO_IDENTIFY" and "\<not> consent ctx"
  shows "queue (identify_calls ctx cs w) = queue w \<and> clients (identify_calls ctx cs w) = clients w
     \<and> analyticsRef_current (identify_calls ctx cs w) = analyticsRef_current w"
proof (induction cs arbitrary: w)
  case Nil
  show ?case by (simp add: identify_calls_def)
next
  case (Cons c cs)
  obtain uid tr cb where c: "c = (uid, tr, cb)" by (cases c)
  have step: "identify_calls ctx (c # cs) w = identify_calls ctx cs (identify ctx uid tr cb w)"
    by (simp add: identify_calls_def c)
  show ?case
    unfolding step using Cons.IH [of "identify ctx uid tr cb w"]
    by (simp add: identify_gated [OF assms] console_log_def)
qed

lemma identify_calls_gated_last:
  assumes "trackingPolicy ctx = CONSENT_TO_IDENTIFY" and "\<not> consent ctx" and "cs \<noteq> []"
  shows "deferredIdentity (identify_calls ctx cs w) =
     Some \<lparr>userId = fst (last cs), traits = Some (enrich ctx (fst (snd (last cs))))\<rparr>"
  using assms(3)
proof (induction cs arbitrary: w rule: rev_induct)
  case Nil
  then show ?case by simp
next
  case (snoc c cs)
  obtain uid tr cb where c: "c = (uid, tr, cb)" by (cases c)
  have "identify_calls ctx (cs @ [c]) w = identify ctx uid tr cb (identify_calls ctx cs w)"
    by (simp add: identify_calls_def c)
  then show ?case
    by (simp add: identify_gated [OF assms(1,2)] c)
qed

text \<open>
  C1. A call of \<open>identify\<close> under the policy \<open>CONSENT_TO_IDENTIFY\<close> without consent
  stores \<open>{userId, traits: enriched}\<close> in the deferred-identity slot, invokes the callback
  at once if there is one, adds nothing to the queue and calls no client. After any
  non-empty sequence of such calls the slot holds the identity of the last call, and
  still nothing is queued and no client was called.
\<close>

theorem identify_without_consent_is_deferred:
  assumes "trackingPolicy ctx = CONSENT_TO_IDENTIFY" and "\<not> consent ctx"
  shows "deferredIdentity (identify ctx uid tr cb w)
           = Some \<lparr>userId = uid, traits = Some (enrich ctx tr)\<rparr>
     \<and> invoked (identify ctx uid tr cb w) = invoked w @ (case cb of None \<Rightarrow> [] | Some f \<Rightarrow> [f])
     \<and> queue (identify ctx uid tr cb w) = queue w
     \<and> clients (identify ctx uid tr cb w) = clients w
     \<and> queue (identify_calls ctx cs w) = queue w
     \<and> clients (identify_calls ctx cs w) = clients w
     \<and> (cs \<noteq> [] \<longrightarrow> deferredIdentity (identify_calls ctx cs w)
           = Some \<lparr>userId = fst (last cs), traits = Some (enrich ctx (fst (snd (last cs))))\<rparr>)"
  using identify_calls_gated_frame [OF assms, of cs w] identify_calls_gated_last [OF assms, of cs w]
  by (simp add: identify_gated [OF assms] console_log_def)

theorem identify_without_consent_is_deferred_witness:
  "trackingPolicy example_context = CONSENT_TO_IDENTIFY \<and> \<not> consent example_context
   \<and> deferredIdentity
        (identify example_context ''u1'' (Some [(''plan'', JStr ''pro'')]) (Some 5) example_world)
       = Some \<lparr>userId = ''u1'',
               traits = Some [(''plan'', JStr ''pro''),
                              (''prezly'', JObj [(''newsroom'', JStr ''n1''),
                                 (''tracking_policy'', JPolicy CONSENT_TO_IDENTIFY)])]\<rparr>
   \<and> invoked
        (identify example_context ''u1'' (Some [(''plan'', JStr ''pro'')]) (Some 5) example_world)
       = [5]
   \<and> queue
        (identify example_context ''u1'' (Some [(''plan'', JStr ''pro'')]) (Some 5) example_world)
       = []
   \<and> deferredIdentity
        (identify_calls example_context
           [(''u1'', Some [(''plan'', JStr ''pro'')], Some 5), (''u2'', None, None)] example_world)
       = Some \<lparr>userId = ''u2'',
               traits = Some [(''prezly'', JObj [(''newsroom'', JStr ''n1''),
                                 (''tracking_policy'', JPolicy CONSENT_TO_IDENTIFY)])]\<rparr>"
  using identify_without_consent_is_deferred
          [of example_context "''u1''" "Some [(''plan'', JStr ''pro'')]" "Some 5" example_world
              "[(''u1'', Some [(''plan'', JStr ''pro'')], Some 5), (''u2'', None, None)]"]
  by (simp add: example_context_def example_world_def enrich_def injectPrezlyMeta_def)

subsection \<open>The queue\<close>

lemma issue_enqueues:
  assumes "gate_open ctx call"
  shows "issue ctx call w =
           (console_log (case call of
                CallIdentify uid t cb \<Rightarrow> LogIdentify uid (enrich ctx t)
              | CallAlias uid p \<Rightarrow> LogAlias uid p
              | CallPage c n t cb \<Rightarrow> LogPage c n (enrich ctx t)
              | CallTrack e t cb \<Rightarrow> LogTrack e (enrich ctx t)) w)
             \<lparr>queue := queue w @ [closure_of ctx call]\<rparr>"
  using assms
  by (cases call)
     (auto simp: identify_def alias'_def page_def track_def enrich_def Let_def addToQueue_def
        console_log_def)

lemma issue_frame:
  assumes "gate_open ctx call"
  shows "queue (issue ctx call w) = queue w @ [closure_of ctx call]"
    and "clients (issue ctx call w) = clients w"
    and "analyticsRef_current (issue ctx call w) = analyticsRef_current w"
    and "lib_version (issue ctx call w) = lib_version w"
    and "navigator_userAgent (issue ctx call w) = navigator_userAgent w"
    and "deferredIdentity (issue ctx call w) = deferredIdentity w"
    and "invoked (issue ctx call w) = invoked w"
  by (simp_all add: issue_enqueues [OF assms] console_log_def)

lemma run_reads_cell:
  "run f w =
     (case analyticsRef_current w of
        None \<Rightarrow> (Normal, w)
      | Some a \<Rightarrow>
          (case method_of f (clients w a) of
             None \<Rightarrow> (Normal, w)
           | Some b \<Rightarrow> call_client a (call_of f w) b w))"
  by (cases f) (simp_all split: option.splits)

lemma buildOptions_cong:
  "lib_version w' = lib_version w \<Longrightarrow> navigator_userAgent w' = navigator_userAgent w
     \<Longrightarrow> buildOptions c w' = buildOptions c w"
  by (cases c) (simp_all add: buildOptions_def)

lemma call_of_cong:
  "lib_version w' = lib_version w \<Longrightarrow> navigator_userAgent w' = navigator_userAgent w
     \<Longrightarrow> call_of f w' = call_of f w"
  using buildOptions_cong [of w' w] by (cases f) simp_all

lemma method_of_received [simp]:
  "method_of f (cl\<lparr>received := r\<rparr>) = method_of f cl"
  by (cases f) simp_all

lemma quiet_received [simp]: "quiet (cl\<lparr>received := r\<rparr>) = quiet cl"
  by (simp add: quiet_def)

lemma fired_cong:
  assumes "lib_version w' = lib_version w" and "navigator_userAgent w' = navigator_userAgent w"
    and "\<And>f. method_of f cl' = method_of f cl"
  shows "fired cl' w' fs = fired cl w fs"
  using call_of_cong [OF assms(1,2)] assms(3) by (simp add: fired_def)

lemma drain_effect_head:
  assumes "analytics ctx = Some a" and "analyticsRef_current w = Some a" and "queue w = f # q"
  shows "drain_effect ctx w =
     (case method_of f (clients w a) of
        None \<Rightarrow> (Normal, w\<lparr>queue := q\<rparr>)
      | Some Returns \<Rightarrow> (Normal, (record_call a (call_of f w) w)\<lparr>queue := q\<rparr>)
      | Some Throws \<Rightarrow> (Thrown, record_call a (call_of f w) w))"
  using assms
  by (simp add: drain_effect_def firstInQueue_def run_reads_cell call_client_def
        removeFromQueue_def record_call_def split: option.splits behaviour.splits)

lemma drain_effect_idle:
  "analytics ctx = None \<or> queue w = [] \<Longrightarrow> drain_effect ctx w = (Normal, w)"
  by (auto simp: drain_effect_def firstInQueue_def split: option.splits)

lemma drain_ticks_fifo:
  assumes "analytics ctx = Some a"
  shows "analyticsRef_current w = Some a \<Longrightarrow> quiet (clients w a) \<Longrightarrow>
     fst (drain_ticks n ctx w) = Normal
     \<and> queue (snd (drain_ticks n ctx w)) = drop n (queue w)
     \<and> received (clients (snd (drain_ticks n ctx w)) a)
         = received (clients w a) @ fired (clients w a) w (take n (queue w))"
proof (induction n arbitrary: w)
  case 0
  show ?case by (simp add: fired_def)
next
  case (Suc n)
  show ?case
  proof (cases "queue w")
    case Nil
    have "drain_effect ctx w = (Normal, w)"
      using Nil by (simp add: drain_effect_idle)
    then show ?thesis
      using Suc.IH [OF Suc.prems] Nil by simp
  next
    case (Cons f q)
    note head = drain_effect_head [OF assms Suc.prems(1) Cons]
    show ?thesis
    proof (cases "method_of f (clients w a)")
      case None
      let ?w1 = "w\<lparr>queue := q\<rparr>"
      have step: "drain_effect ctx w = (Normal, ?w1)"
        using head None by simp
      have "fired (clients ?w1 a) ?w1 (take n q) = fired (clients w a) w (take n q)"
        by (rule fired_cong) simp_all
      moreover have "fired (clients w a) w (take (Suc n) (f # q)) = fired (clients w a) w (take n q)"
        using None by (simp add: fired_def)
      ultimately show ?thesis
        using Suc.IH [of ?w1] Suc.prems Cons step by simp
    next
      case (Some b)
      then have b: "b = Returns"
        using Suc.prems(2) by (cases f; cases b) (simp_all add: quiet_def)
      let ?w1 = "(record_call a (call_of f w) w)\<lparr>queue := q\<rparr>"
      have step: "drain_effect ctx w = (Normal, ?w1)"
        using head Some b by simp
      have "fired (clients ?w1 a) ?w1 (take n q) = fired (clients w a) w (take n q)"
        by (rule fired_cong) (simp_all add: record_call_def)
      moreover have "fired (clients w a) w (take (Suc n) (f # q))
          = call_of f w # fired (clients w a) w (take n q)"
        using Some by (simp add: fired_def)
      moreover have "analyticsRef_current ?w1 = Some a" "quiet (clients ?w1 a)"
        "received (clients ?w1 a) = received (clients w a) @ [call_of f w]" "queue ?w1 = q"
        using Suc.prems by (simp_all add: record_call_def)
      ultimately show ?thesis
        using Suc.IH [of ?w1] Cons step by simp
    qed
  qed
qed


lemma issue_all:
  assumes "\<forall>call\<in>set cs. gate_open ctx call"
  shows "queue (fold (issue ctx) cs w) = queue w @ map (closure_of ctx) cs
     \<and> clients (fold (issue ctx) cs w) = clients w
     \<and> lib_version (fold (issue ctx) cs w) = lib_version w
     \<and> navigator_userAgent (fold (issue ctx) cs w) = navigator_userAgent w"
  using assms
proof (induction cs arbitrary: w)
  case Nil
  show ?case by simp
next
  case (Cons c cs)
  then have "gate_open ctx c" and rest: "\<forall>call\<in>set cs. gate_open ctx call"
    by simp_all
  then show ?case
    using Cons.IH [OF rest, of "issue ctx c w"] by (simp add: issue_frame)
qed

lemma issue_then_drain:
  assumes "gate_open ctx call" and "queue w = []" and "analytics later = Some a"
    and "method_of (closure_of ctx call) (clients w a) = Some b"
  shows "fst (drain_effect later (useLatest later (issue ctx call w)))
           = (case b of Returns \<Rightarrow> Normal | Throws \<Rightarrow> Thrown)
     \<and> received (clients (snd (drain_effect later (useLatest later (issue ctx call w)))) a)
           = received (clients w a) @ [call_of (closure_of ctx call) w]
     \<and> queue (snd (drain_effect later (useLatest later (issue ctx call w))))
           = (case b of Returns \<Rightarrow> [] | Throws \<Rightarrow> [closure_of ctx call])"
proof -
  let ?w1 = "useLatest later (issue ctx call w)"
  have cell: "analyticsRef_current ?w1 = Some a"
    by (simp add: useLatest_def assms(3))
  have q: "queue ?w1 = closure_of ctx call # []"
    by (simp add: useLatest_def issue_frame [OF assms(1)] assms(2))
  have cl: "clients ?w1 = clients w"
    by (simp add: useLatest_def issue_frame [OF assms(1)])
  have c: "call_of (closure_of ctx call) ?w1 = call_of (closure_of ctx call) w"
    by (rule call_of_cong) (simp_all add: useLatest_def issue_frame [OF assms(1)])
  show ?thesis
    using drain_effect_head [OF assms(3) cell q] assms(4)
    by (cases b) (simp_all add: cl c q record_call_def)
qed

text \<open>
  C2. A closure queued by \<open>identify\<close>, \<open>alias\<close>, \<open>page\<close> or \<open>track\<close> reads the
  cell \<open>analyticsRef\<close> when it runs. A call made while no client is present leaves one
  closure in the queue; run with the cell as it was then, the closure does nothing, and
  the drain effect leaves it queued while there is no client; but once a render has a
  client \<open>a\<close> that has the method, the drain effect makes the closure call that client.
  In any world \<open>w'\<close> the closure does nothing when the cell is empty and calls the client
  that the cell holds in \<open>w'\<close> when that client has the method.
\<close>

theorem queued_closure_reads_client_when_run:
  assumes "analytics ctx = None" and "analyticsRef_current w = None"
    and "gate_open ctx call" and "queue w = []"
    and "analytics later = Some a"
    and "method_of (closure_of ctx call) (clients w a) \<noteq> None"
  shows "queue (issue ctx call w) = [closure_of ctx call]
     \<and> run (closure_of ctx call) (issue ctx call w) = (Normal, issue ctx call w)
     \<and> drain_effect ctx (useLatest ctx (issue ctx call w)) = (Normal, useLatest ctx (issue ctx call w))
     \<and> received (clients (snd (drain_effect later (useLatest later (issue ctx call w)))) a)
           = received (clients w a) @ [call_of (closure_of ctx call) w]
     \<and> (analyticsRef_current w' = None \<longrightarrow> run (closure_of ctx call) w' = (Normal, w'))
     \<and> (analyticsRef_current w' = Some a' \<and> method_of (closure_of ctx call) (clients w' a') \<noteq> None
          \<longrightarrow> received (clients (snd (run (closure_of ctx call) w')) a')
                = received (clients w' a') @ [call_of (closure_of ctx call) w'])"
proof -
  obtain b where b: "method_of (closure_of ctx call) (clients w a) = Some b"
    using assms(6) by auto
  have "run (closure_of ctx call) (issue ctx call w) = (Normal, issue ctx call w)"
    by (simp add: run_reads_cell issue_frame [OF assms(3)] assms(2))
  moreover have "drain_effect ctx (useLatest ctx (issue ctx call w))
      = (Normal, useLatest ctx (issue ctx call w))"
    using assms(1) by (simp add: drain_effect_idle)
  moreover have "run (closure_of ctx call) w' = (Normal, w')" if "analyticsRef_current w' = None"
    using that by (simp add: run_reads_cell)
  moreover have "received (clients (snd (run (closure_of ctx call) w')) a')
      = received (clients w' a') @ [call_of (closure_of ctx call) w']"
    if "analyticsRef_current w' = Some a'"
      and "method_of (closure_of ctx call) (clients w' a') \<noteq> None"
    using that by (auto simp: run_reads_cell call_client_def record_call_def)
  ultimately show ?thesis
    using issue_then_drain [OF assms(3,4,5) b]
    by (simp add: issue_frame [OF assms(3)] assms(4))
qed

theorem queued_closure_reads_client_when_run_witness:
  "analytics example_open = None \<and> analyticsRef_current example_world = None
   \<and> gate_open example_open (CallTrack ''click'' None (Some 3)) \<and> queue example_world = []
   \<and> analytics example_later = Some 0
   \<and> method_of (closure_of example_open (CallTrack ''click'' None (Some 3)))
         (clients example_world 0) \<noteq> None
   \<and> received (clients (snd (drain_effect example_later
         (useLatest example_later
            (issue example_open (CallTrack ''click'' None (Some 3)) example_world)))) 0)
       = [Track ''click''
            [(''prezly'', JObj [(''newsroom'', JStr ''n1''), (''story'', JStr ''s1'')])]
            \<lparr>options_context =
               \<lparr>library = \<lparr>name = ''@prezly/analytics-next'', version = ''2.1.0''\<rparr>,
                userAgent = Some ''Mozilla/5.0''\<rparr>\<rparr>
            (Some 3)]
   \<and> run (closure_of example_open (CallTrack ''click'' None (Some 3))) example_world
       = (Normal, example_world)
   \<and> analyticsRef_current null_id_world = Some 0
   \<and> received (clients (snd (run (closure_of example_open (CallTrack ''click'' None (Some 3)))
         null_id_world)) 0)
       = [Track ''click''
            [(''prezly'', JObj [(''newsroom'', JStr ''n1''), (''story'', JStr ''s1'')])]
            \<lparr>options_context =
               \<lparr>library = \<lparr>name = ''@prezly/analytics-next'', version = ''2.1.0''\<rparr>,
                userAgent = Some ''Mozilla/5.0''\<rparr>\<rparr>
            (Some 3)]"
  using queued_closure_reads_client_when_run
          [of example_open example_world "CallTrack ''click'' None (Some 3)" example_later 0
              example_world 0]
    queued_closure_reads_client_when_run
          [of example_open example_world "CallTrack ''click'' None (Some 3)" example_later 0
              null_id_world 0, THEN conjunct2, THEN conjunct2, THEN conjunct2, THEN conjunct2,
           THEN conjunct2]
  by (simp add: example_defs null_id_world_def enrich_def injectPrezlyMeta_def buildOptions_def)

text \<open>
  C3, as the code has it. Calls issued while no client is present (an \<open>identify\<close> only
  with its consent gate open) are appended to the queue in the order of the calls, and
  nothing fires while there is no client. Once a render has a client whose methods return
  normally, \<open>n\<close> runs of the drain effect remove exactly the \<open>n\<close> oldest closures, one
  per run, and the client has received their calls, each once, in the order they were
  queued; the rest of the queue waits. A closure whose method the client lacks is run and
  removed in its turn without a call on the client, which is what \<open>fired\<close> leaves out;
  for a client that has every method the calls are those of all \<open>n\<close> closures.
\<close>

theorem queued_calls_fire_once_in_order:
  assumes "analytics ctx = None"
    and "\<forall>call\<in>set cs. gate_open ctx call"
    and "analytics later = Some a"
    and "quiet (clients w a)"
  shows "queue (fold (issue ctx) cs w) = queue w @ map (closure_of ctx) cs
     \<and> drain_effect ctx (useLatest ctx (fold (issue ctx) cs w))
           = (Normal, useLatest ctx (fold (issue ctx) cs w))
     \<and> fst (drain_ticks n later (useLatest later (fold (issue ctx) cs w))) = Normal
     \<and> queue (snd (drain_ticks n later (useLatest later (fold (issue ctx) cs w))))
           = drop n (queue w @ map (closure_of ctx) cs)
     \<and> received (clients (snd (drain_ticks n later (useLatest later (fold (issue ctx) cs w)))) a)
           = received (clients w a)
             @ fired (clients w a) w (take n (queue w @ map (closure_of ctx) cs))
     \<and> ((\<forall>f\<in>set (queue w @ map (closure_of ctx) cs). method_of f (clients w a) \<noteq> None) \<longrightarrow>
          received (clients (snd (drain_ticks n later (useLatest later (fold (issue ctx) cs w)))) a)
           = received (clients w a)
             @ map (\<lambda>f. call_of f w) (take n (queue w @ map (closure_of ctx) cs)))"
proof -
  let ?w1 = "fold (issue ctx) cs w"
  let ?w2 = "useLatest later ?w1"
  let ?q = "queue w @ map (closure_of ctx) cs"
  note all = issue_all [OF assms(2), of w]
  have q: "queue ?w2 = ?q" and cl: "clients ?w2 = clients w"
    using all by (simp_all add: useLatest_def)
  have cell: "analyticsRef_current ?w2 = Some a"
    by (simp add: useLatest_def assms(3))
  have quiet2: "quiet (clients ?w2 a)"
    using assms(4) cl by simp
  have f: "fired (clients w a) ?w2 fs = fired (clients w a) w fs" for fs
    by (rule fired_cong) (simp_all add: useLatest_def all)
  have idle: "drain_effect ctx (useLatest ctx ?w1) = (Normal, useLatest ctx ?w1)"
    using assms(1) by (simp add: drain_effect_idle)
  have full: "fired (clients w a) w (take n ?q) = map (\<lambda>f. call_of f w) (take n ?q)"
    if "\<forall>f\<in>set ?q. method_of f (clients w a) \<noteq> None"
  proof -
    have "\<forall>f\<in>set (take n ?q). method_of f (clients w a) \<noteq> None"
      using that by (meson in_set_takeD)
    then have "filter (\<lambda>f. method_of f (clients w a) \<noteq> None) (take n ?q) = take n ?q"
      by (simp only: filter_id_conv)
    then show ?thesis
      by (simp only: fired_def)
  qed
  note fifo = drain_ticks_fifo [OF assms(3) cell quiet2, of n, unfolded q cl f]
  have c1: "queue ?w1 = ?q"
    using all by simp
  have c3: "fst (drain_ticks n later ?w2) = Normal"
    using fifo by (rule conjunct1)
  have c4: "queue (snd (drain_ticks n later ?w2)) = drop n ?q"
    using fifo by (elim conjE)
  have c5: "received (clients (snd (drain_ticks n later ?w2)) a)
      = received (clients w a) @ fired (clients w a) w (take n ?q)"
    using fifo by (elim conjE)
  have c6: "received (clients (snd (drain_ticks n later ?w2)) a)
      = received (clients w a) @ map (\<lambda>f. call_of f w) (take n ?q)"
    if "\<forall>f\<in>set ?q. method_of f (clients w a) \<noteq> None"
    using c5 full [OF that] by (simp only:)
  show ?thesis
    using c1 idle c3 c4 c5 c6 by (intro conjI impI)
qed

theorem queued_calls_fire_once_in_order_witness:
  "analytics example_open = None
   \<and> gate_open example_open (CallTrack ''click'' None None)
   \<and> gate_open example_open (CallPage None (Some ''home'') None None)
   \<and> gate_open example_open (CallIdentify ''u1'' None None)
   \<and> analytics example_later = Some 0 \<and> quiet (clients example_world 0)
   \<and> queue (snd (drain_ticks (Suc (Suc 0)) example_later
         (useLatest example_later
            (fold (issue example_open)
               [CallTrack ''click'' None None, CallPage None (Some ''home'') None None,
                CallIdentify ''u1'' None None] example_world))))
       = [IdentifyClosure ''u1''
            [(''prezly'', JObj [(''newsroom'', JStr ''n1''), (''story'', JStr ''s1'')])] True None]
   \<and> received (clients (snd (drain_ticks (Suc (Suc 0)) example_later
         (useLatest example_later
            (fold (issue example_open)
               [CallTrack ''click'' None None, CallPage None (Some ''home'') None None,
                CallIdentify ''u1'' None None] example_world)))) 0)
       = [Track ''click''
            [(''prezly'', JObj [(''newsroom'', JStr ''n1''), (''story'', JStr ''s1'')])]
            (buildOptions True example_world) None,
          Page None (Some ''home'')
            [(''prezly'', JObj [(''newsroom'', JStr ''n1''), (''story'', JStr ''s1'')])]
            (buildOptions True example_world) None]"
  using queued_calls_fire_once_in_order
          [of example_open
              "[CallTrack ''click'' None None, CallPage None (Some ''home'') None None,
                CallIdentify ''u1'' None None]"
              example_later 0 example_world "Suc (Suc 0)"]
  by (simp add: example_defs enrich_def injectPrezlyMeta_def quiet_def fired_def)

text \<open>
  The sentence of the spec that every queued call fires exactly once, whatever the client
  does, fails for a client whose \<open>track\<close> throws: the drain step ends by the
  exception with both calls still queued, a second drain step delivers the same
  \<open>track\<close> call again, and the \<open>page\<close> call behind it has not fired.
\<close>

theorem throwing_call_fires_again_and_blocks_queue:
  "analytics example_open = None
   \<and> gate_open example_open (CallTrack ''click'' None None)
   \<and> gate_open example_open (CallPage None (Some ''home'') None None)
   \<and> analytics example_later = Some 0
   \<and> queue (fold (issue example_open)
         [CallTrack ''click'' None None, CallPage None (Some ''home'') None None]
         track_throws_world)
       = [closure_of example_open (CallTrack ''click'' None None),
          closure_of example_open (CallPage None (Some ''home'') None None)]
   \<and> fst (drain_ticks (Suc (Suc 0)) example_later
         (useLatest example_later
            (fold (issue example_open)
               [CallTrack ''click'' None None, CallPage None (Some ''home'') None None]
               track_throws_world))) = Thrown
   \<and> queue (snd (drain_ticks (Suc (Suc 0)) example_later
         (useLatest example_later
            (fold (issue example_open)
               [CallTrack ''click'' None None, CallPage None (Some ''home'') None None]
               track_throws_world))))
       = [closure_of example_open (CallTrack ''click'' None None),
          closure_of example_open (CallPage None (Some ''home'') None None)]
   \<and> received (clients (snd (drain_effect example_later (snd (drain_effect example_later
         (useLatest example_later
            (fold (issue example_open)
               [CallTrack ''click'' None None, CallPage None (Some ''home'') None None]
               track_throws_world))))))
         0)
       = [call_of (closure_of example_open (CallTrack ''click'' None None)) track_throws_world,
          call_of (closure_of example_open (CallTrack ''click'' None None)) track_throws_world]"
  by (simp add: example_defs track_throws_world_def track_def page_def addToQueue_def
        console_log_def useLatest_def drain_effect_def firstInQueue_def call_client_def
        record_call_def enrich_def injectPrezlyMeta_def buildOptions_def Let_def)

text \<open>
  C9. The options that the client receives when a queued closure runs are those of
  \<open>buildOptions\<close> under the consent of the render that issued the call, whatever the
  consent of the render in which the queue is drained: \<open>userAgent\<close> is there if and
  only if consent held when the call was issued.
\<close>

theorem options_follow_consent_at_enqueue:
  assumes "gate_open ctx call" and "queue w = []"
    and "analytics later = Some a"
    and "method_of (closure_of ctx call) (clients w a) \<noteq> None"
  shows "options_of (last (received (clients (snd (drain_effect later (useLatest later (issue ctx call w)))) a)))
           = Some (buildOptions (consent ctx) w)
     \<and> (userAgent (options_context (buildOptions (consent ctx) w)) \<noteq> None) = consent ctx"
proof -
  obtain b where b: "method_of (closure_of ctx call) (clients w a) = Some b"
    using assms(4) by auto
  have "options_of (call_of (closure_of ctx call) w) = Some (buildOptions (consent ctx) w)"
    by (cases call) simp_all
  moreover have "(userAgent (options_context (buildOptions (consent ctx) w)) \<noteq> None) = consent ctx"
    by (cases "consent ctx") (simp_all add: buildOptions_def)
  ultimately show ?thesis
    using issue_then_drain [OF assms(1,2,3) b] by simp
qed


theorem options_follow_consent_at_enqueue_witness:
  "gate_open example_open (CallIdentify ''u1'' None None) \<and> queue example_world = []
   \<and> analytics example_later = Some 0
   \<and> method_of (closure_of example_open (CallIdentify ''u1'' None None))
         (clients example_world 0) \<noteq> None
   \<and> consent example_open \<and> \<not> consent example_later
   \<and> options_of (last (received (clients (snd (drain_effect example_later
         (useLatest example_later
            (issue example_open (CallIdentify ''u1'' None None) example_world)))) 0)))
       = Some \<lparr>options_context =
               \<lparr>library = \<lparr>name = ''@prezly/analytics-next'', version = ''2.1.0''\<rparr>,
                userAgent = Some ''Mozilla/5.0''\<rparr>\<rparr>"
  using options_follow_consent_at_enqueue
          [of example_open "CallIdentify ''u1'' None None" example_world example_later 0]
  by (simp add: example_defs buildOptions_def)

subsection \<open>The drain step and exceptions\<close>

lemma run_queue: "queue (snd (run f w)) = queue w"
  by (simp add: run_reads_cell call_client_def record_call_def split: option.splits)

text \<open>
  C4, as the code has it. A drain step with a client and a non-empty queue invokes the
  oldest entry while it is still at the head of the queue. When the invocation returns
  normally, the entry is removed after it. When the invocation throws, the exception
  leaves the effect before the removal: the step ends by the exception and the entry is
  still at the head of the queue.
\<close>

theorem drain_removes_entry_after_normal_return:
  assumes "analytics ctx = Some a" and "queue w = f # q"
  shows "drain_effect ctx w =
           (case run f w of
              (Normal, w') \<Rightarrow> (Normal, w'\<lparr>queue := q\<rparr>)
            | (Thrown, w') \<Rightarrow> (Thrown, w'))
     \<and> queue (snd (run f w)) = f # q
     \<and> (fst (run f w) = Normal \<longrightarrow>
           fst (drain_effect ctx w) = Normal \<and> queue (snd (drain_effect ctx w)) = q)
     \<and> (fst (run f w) = Thrown \<longrightarrow>
           fst (drain_effect ctx w) = Thrown \<and> queue (snd (drain_effect ctx w)) = f # q)"
proof -
  obtain c w' where r: "run f w = (c, w')"
    by (cases "run f w")
  have q': "queue w' = f # q"
    using run_queue [of f w] r assms(2) by simp
  have "drain_effect ctx w =
      (case run f w of
         (Normal, w') \<Rightarrow> (Normal, w'\<lparr>queue := q\<rparr>)
       | (Thrown, w') \<Rightarrow> (Thrown, w'))"
    using assms q' r
    by (cases c) (simp_all add: drain_effect_def firstInQueue_def removeFromQueue_def)
  then show ?thesis
    using r q' assms(2) by (cases c) simp_all
qed

theorem drain_removes_entry_after_normal_return_witness:
  "analytics example_later = Some 0
   \<and> queue (throwing_world\<lparr>clients := (\<lambda>_. example_client)\<rparr>)
       = TrackClosure ''click'' [] True None # [AliasClosure ''u1'' ''u0'' True]
   \<and> fst (run (TrackClosure ''click'' [] True None)
            (throwing_world\<lparr>clients := (\<lambda>_. example_client)\<rparr>)) = Normal
   \<and> queue (snd (drain_effect example_later
         (throwing_world\<lparr>clients := (\<lambda>_. example_client)\<rparr>)))
       = [AliasClosure ''u1'' ''u0'' True]
   \<and> fst (run (TrackClosure ''click'' [] True None) throwing_world) = Thrown
   \<and> fst (drain_effect example_later throwing_world) = Thrown
   \<and> queue (snd (drain_effect example_later throwing_world)) = queue throwing_world"
  using drain_removes_entry_after_normal_return
          [of example_later 0 "throwing_world\<lparr>clients := (\<lambda>_. example_client)\<rparr>"
              "TrackClosure ''click'' [] True None" "[AliasClosure ''u1'' ''u0'' True]"]
    drain_removes_entry_after_normal_return
          [of example_later 0 throwing_world
              "TrackClosure ''click'' [] True None" "[AliasClosure ''u1'' ''u0'' True]",
           THEN conjunct2, THEN conjunct2, THEN conjunct2]
  by (simp add: example_defs throwing_world_def call_client_def)

text \<open>
  The sentence of the spec that an entry whose invocation throws is removed all the same
  fails for a client whose \<open>track\<close> throws: the client was called, the step ended by
  the exception, and the queue is as it was.
\<close>

theorem drain_keeps_entry_when_it_throws:
  "analytics example_later = Some 0
   \<and> queue throwing_world
       = [TrackClosure ''click'' [] True None, AliasClosure ''u1'' ''u0'' True]
   \<and> fst (drain_effect example_later throwing_world) = Thrown
   \<and> received (clients (snd (drain_effect example_later throwing_world)) 0)
       = [Track ''click'' [] (buildOptions True example_world) None]
   \<and> queue (snd (drain_effect example_later throwing_world))
       = [TrackClosure ''click'' [] True None, AliasClosure ''u1'' ''u0'' True]"
  by (simp add: example_defs throwing_world_def drain_effect_def firstInQueue_def
        call_client_def record_call_def buildOptions_def)

subsection \<open>The consent effect\<close>

lemma identify_with_consent:
  assumes "consent ctx"
  shows "identify ctx uid tr cb w =
     (console_log (LogIdentify uid (enrich ctx tr)) w)
       \<lparr>queue := queue w @ [IdentifyClosure uid (enrich ctx tr) True cb]\<rparr>"
  using assms by (simp add: identify_def enrich_def Let_def addToQueue_def console_log_def)

text \<open>
  C5. When the consent effect runs with consent and a deferred identity is stored, it
  calls \<open>identify\<close> with the stored \<open>userId\<close> and \<open>traits\<close> and no callback, and
  clears the slot. That call passes the gate, so it queues exactly one closure and calls
  no client; with the slot empty, a further run of the effect does nothing, so the
  identity is replayed once.
\<close>

theorem consent_replays_deferred_identity_once:
  assumes "consent ctx" and "deferredIdentity w = Some d"
  shows "consent_effect ctx w = removeDeferredIdentity (identify ctx (userId d) (traits d) None w)
     \<and> queue (consent_effect ctx w)
         = queue w @ [IdentifyClosure (userId d) (enrich ctx (traits d)) True None]
     \<and> deferredIdentity (consent_effect ctx w) = None
     \<and> clients (consent_effect ctx w) = clients w
     \<and> invoked (consent_effect ctx w) = invoked w
     \<and> consent_effect ctx (consent_effect ctx w) = consent_effect ctx w"
proof -
  have e: "consent_effect ctx w
      = removeDeferredIdentity (identify ctx (userId d) (traits d) None w)"
    using assms by (simp add: consent_effect_def)
  have n: "deferredIdentity (consent_effect ctx w) = None"
    by (simp add: e removeDeferredIdentity_def)
  have "consent_effect ctx (consent_effect ctx w) = consent_effect ctx w"
    using assms(1) n by (simp add: consent_effect_def [of ctx "consent_effect ctx w"])
  then show ?thesis
    using e n
    by (simp add: identify_with_consent [OF assms(1)] removeDeferredIdentity_def console_log_def)
qed

theorem consent_replays_deferred_identity_once_witness:
  "consent example_open
   \<and> deferredIdentity deferred_world
       = Some \<lparr>userId = ''u1'',
               traits = Some [(''plan'', JStr ''pro''),
                              (''prezly'', JObj [(''newsroom'', JStr ''n0'')])]\<rparr>
   \<and> queue (consent_effect example_open deferred_world)
       = [IdentifyClosure ''u1''
            [(''plan'', JStr ''pro''),
             (''prezly'', JObj [(''newsroom'', JStr ''n1''), (''story'', JStr ''s1'')])] True None]
   \<and> deferredIdentity (consent_effect example_open deferred_world) = None"
proof -
  have c: "consent example_open"
    by (simp add: example_defs)
  have d: "deferredIdentity deferred_world
      = Some \<lparr>userId = ''u1'',
              traits = Some [(''plan'', JStr ''pro''),
                             (''prezly'', JObj [(''newsroom'', JStr ''n0'')])]\<rparr>"
    by (simp add: example_defs deferred_world_def)
  show ?thesis
    using c d consent_replays_deferred_identity_once [OF c d, THEN conjunct2]
    by (simp add: example_defs deferred_world_def enrich_def injectPrezlyMeta_def)
qed

lemma user_cases:
  "user ctx w = ClientUser a \<longleftrightarrow> analytics ctx = Some a \<and> m_user (clients w a)"
  by (auto simp: user_def split: option.splits)

lemma consent_effect_fake:
  assumes "\<not> consent ctx" and "user ctx w = FakeUser"
  shows "consent_effect ctx w = w"
  using assms by (simp add: consent_effect_def truthy_def)

lemma consent_effect_client:
  assumes "\<not> consent ctx" and "user ctx w = ClientUser a"
  shows "consent_effect ctx w =
     w\<lparr>deferredIdentity :=
          (if truthy (user_id (clients w a))
           then Some \<lparr>userId = the (user_id (clients w a)), traits = None\<rparr>
           else deferredIdentity w),
        clients := (clients w)
          (a := (clients w a)
             \<lparr>user_id := None,
              received := received (clients w a) @ [UserIdGet, UserIdSet None]\<rparr>)\<rparr>"
proof -
  have u: "analytics ctx = Some a" "m_user (clients w a)"
    using assms(2) by (simp_all add: user_cases)
  have u': "user ctx w' = (if m_user (clients w' a) then ClientUser a else FakeUser)" for w'
    using u(1) by (simp add: user_def)
  show ?thesis
    using assms(1) u(2)
    by (simp add: consent_effect_def u' Let_def setDeferredIdentity_def record_call_def)
qed

lemma consent_effect_without_consent:
  assumes "\<not> consent ctx"
  shows "(user ctx w = FakeUser \<longrightarrow> consent_effect ctx w = w)
     \<and> (user ctx w = ClientUser a \<longrightarrow>
          deferredIdentity (consent_effect ctx w)
            = (case user_id (clients w a) of
                 None \<Rightarrow> deferredIdentity w
               | Some i \<Rightarrow> if i = [] then deferredIdentity w
                           else Some \<lparr>userId = i, traits = None\<rparr>)
          \<and> received (clients (consent_effect ctx w) a)
              = received (clients w a) @ [UserIdGet, UserIdSet None]
          \<and> user_id (clients (consent_effect ctx w) a) = None
          \<and> queue (consent_effect ctx w) = queue w)"
proof (intro conjI impI)
  assume "user ctx w = FakeUser"
  then show "consent_effect ctx w = w"
    by (rule consent_effect_fake [OF assms])
next
  assume u: "user ctx w = ClientUser a"
  note e = consent_effect_client [OF assms u]
  show "deferredIdentity (consent_effect ctx w)
      = (case user_id (clients w a) of
           None \<Rightarrow> deferredIdentity w
         | Some i \<Rightarrow> if i = [] then deferredIdentity w else Some \<lparr>userId = i, traits = None\<rparr>)"
    by (simp add: e truthy_def split: option.splits)
  show "received (clients (consent_effect ctx w) a)
      = received (clients w a) @ [UserIdGet, UserIdSet None]"
    by (simp add: e)
  show "user_id (clients (consent_effect ctx w) a) = None"
    by (simp add: e)
  show "queue (consent_effect ctx w) = queue w"
    by (simp add: e)
qed

lemma user_id_null_after_consent_effect:
  assumes "\<not> consent ctx"
  shows "fst (id_get (user ctx (consent_effect ctx w)) (consent_effect ctx w)) = None"
proof (cases "user ctx w")
  case FakeUser
  then show ?thesis
    by (simp add: consent_effect_fake [OF assms])
next
  case (ClientUser a)
  note e = consent_effect_client [OF assms ClientUser]
  have "analytics ctx = Some a"
    using ClientUser by (simp add: user_cases)
  then have "user ctx (consent_effect ctx w) = ClientUser a \<or> user ctx (consent_effect ctx w) = FakeUser"
    by (simp add: user_def)
  then show ?thesis
    by (auto simp: e)
qed

text \<open>
  C6, as the code has it. When the consent effect runs without consent it reads
  \<^verbatim>\<open>user().id()\<close>. With the fake user API (no client, or a client without \<^verbatim>\<open>user\<close>)
  nothing changes. With the client's user API the id is read, it is stored as a deferred
  identity \<open>{userId: id}\<close> without traits when it is truthy, that is neither null nor
  the empty string, and the slot is left as it was otherwise; then \<^verbatim>\<open>user().id(null)\<close> is
  called in every case, and the client's id is null afterwards. In both cases
  \<^verbatim>\<open>user().id()\<close> reads null after the effect.
\<close>

theorem consent_false_stores_truthy_id_and_erases:
  assumes "\<not> consent ctx"
  shows "(user ctx w = FakeUser \<longrightarrow> consent_effect ctx w = w)
     \<and> (user ctx w = ClientUser a \<longrightarrow>
          deferredIdentity (consent_effect ctx w)
            = (case user_id (clients w a) of
                 None \<Rightarrow> deferredIdentity w
               | Some i \<Rightarrow> if i = [] then deferredIdentity w
                           else Some \<lparr>userId = i, traits = None\<rparr>)
          \<and> received (clients (consent_effect ctx w) a)
              = received (clients w a) @ [UserIdGet, UserIdSet None]
          \<and> user_id (clients (consent_effect ctx w) a) = None)
     \<and> fst (id_get (user ctx (consent_effect ctx w)) (consent_effect ctx w)) = None"
  using consent_effect_without_consent [OF assms, of w a]
    user_id_null_after_consent_effect [OF assms, of w]
  by blast

theorem consent_false_stores_truthy_id_and_erases_witness:
  "\<not> consent example_later \<and> user example_later example_world = ClientUser 0
   \<and> user_id (clients example_world 0) = Some ''u7''
   \<and> deferredIdentity (consent_effect example_later example_world)
       = Some \<lparr>userId = ''u7'', traits = None\<rparr>
   \<and> received (clients (consent_effect example_later example_world) 0)
       = [UserIdGet, UserIdSet None]
   \<and> user_id (clients (consent_effect example_later example_world) 0) = None
   \<and> \<not> consent example_context \<and> user example_context example_world = FakeUser
   \<and> consent_effect example_context example_world = example_world"
proof -
  have c: "\<not> consent example_later" and c': "\<not> consent example_context"
    by (simp_all add: example_defs)
  have u: "user example_later example_world = ClientUser 0"
    and u': "user example_context example_world = FakeUser"
    by (simp_all add: example_defs user_def)
  show ?thesis
    using c u c' u' consent_false_stores_truthy_id_and_erases [OF c, of example_world 0]
      consent_false_stores_truthy_id_and_erases [OF c', of example_world 0, THEN conjunct1]
    by (simp add: example_defs)
qed

text \<open>
  The sentence of the spec that every non-null id is stored fails for the empty string:
  \<^verbatim>\<open>if (id)\<close> is false for it, and the slot stays empty.
\<close>

theorem empty_user_id_is_not_deferred:
  "\<not> consent example_later
   \<and> fst (id_get (user example_later empty_id_world) empty_id_world) = Some []
   \<and> deferredIdentity empty_id_world = None
   \<and> deferredIdentity (consent_effect example_later empty_id_world) = None"
  by (simp add: example_defs empty_id_world_def user_def consent_effect_def truthy_def
        record_call_def)

subsection \<open>The enabled flag\<close>

lemma injectPrezlyMeta_isEnabled:
  "injectPrezlyMeta (ctx\<lparr>isEnabled := b\<rparr>) t = injectPrezlyMeta ctx t"
  by (simp add: injectPrezlyMeta_def)

lemma identify_isEnabled:
  "identify (ctx\<lparr>isEnabled := b\<rparr>) uid tr cb w = identify ctx uid tr cb w"
  by (auto simp: identify_def Let_def injectPrezlyMeta_isEnabled)

lemma user_isEnabled: "user (ctx\<lparr>isEnabled := b\<rparr>) w = user ctx w"
  by (simp add: user_def)

text \<open>
  C8. When \<open>isEnabled\<close> is false, the functions \<open>track\<close>, \<open>page\<close>, \<open>alias\<close> and
  \<open>identify\<close> of the returned object leave the whole state as it is, whatever their
  arguments: nothing is queued, the deferred-identity slot is not written, nothing is
  logged, no callback is invoked, and they return normally. \<open>user\<close> is the same
  function as in the enabled object.
\<close>

theorem disabled_facade_is_inert:
  assumes "\<not> isEnabled ctx"
  shows "api_track (useAnalytics ctx) event properties cb w = w
     \<and> api_page (useAnalytics ctx) category pname properties cb w = w
     \<and> api_alias (useAnalytics ctx) uid previousId w = w
     \<and> api_identify (useAnalytics ctx) uid traits0 cb w = w
     \<and> api_user (useAnalytics ctx) = user ctx
     \<and> api_user (useAnalytics ctx) = api_user (useAnalytics (ctx\<lparr>isEnabled := True\<rparr>))"
  using assms by (simp add: useAnalytics_def fun_eq_iff user_isEnabled)

theorem disabled_facade_is_inert_witness:
  "\<not> isEnabled example_disabled
   \<and> api_identify (useAnalytics example_disabled) ''u1'' None (Some 4) example_world
       = example_world
   \<and> api_track (useAnalytics example_disabled) ''click'' None None example_world = example_world
   \<and> api_user (useAnalytics example_disabled) example_world = ClientUser 0"
proof -
  have d: "\<not> isEnabled example_disabled"
    by (simp add: example_disabled_def)
  show ?thesis
    using d
      disabled_facade_is_inert
        [OF d, of "''click''" None None example_world None None "''u1''" "''u0''" None]
      disabled_facade_is_inert
        [OF d, of "''click''" None "Some 4" example_world None None "''u1''" "''u0''" None]
    by (simp add: example_defs example_disabled_def user_def useAnalytics_def)
qed

text \<open>
  C10, as the code has it. Both effects stand before the test of \<open>isEnabled\<close>: with the
  flag false they do what they do with the flag true. In particular, without consent the
  effect reads the id of the client's user API, stores it when it is truthy (neither null
  nor the empty string) and calls \<^verbatim>\<open>user().id(null)\<close> whatever the id was; and with a
  client present the drain effect runs and removes the oldest queued closure.
\<close>

theorem effects_ignore_enabled_flag:
  assumes "\<not> isEnabled ctx"
  shows "drain_effect ctx w = drain_effect (ctx\<lparr>isEnabled := True\<rparr>) w
     \<and> consent_effect ctx w = consent_effect (ctx\<lparr>isEnabled := True\<rparr>) w
     \<and> effects ctx w = effects (ctx\<lparr>isEnabled := True\<rparr>) w
     \<and> (\<not> consent ctx \<and> user ctx w = ClientUser a \<longrightarrow>
          received (clients (consent_effect ctx w) a)
            = received (clients w a) @ [UserIdGet, UserIdSet None]
          \<and> deferredIdentity (consent_effect ctx w)
              = (case user_id (clients w a) of
                   None \<Rightarrow> deferredIdentity w
                 | Some i \<Rightarrow> if i = [] then deferredIdentity w
                             else Some \<lparr>userId = i, traits = None\<rparr>))
     \<and> (analytics ctx = Some a \<and> analyticsRef_current w = Some a \<and> queue w = f # q
          \<and> method_of f (clients w a) = Some Returns \<longrightarrow>
          drain_effect ctx w = (Normal, (record_call a (call_of f w) w)\<lparr>queue := q\<rparr>))"
proof -
  have d: "drain_effect ctx w = drain_effect (ctx\<lparr>isEnabled := True\<rparr>) w" for w
    by (simp add: drain_effect_def)
  have c: "consent_effect ctx w = consent_effect (ctx\<lparr>isEnabled := True\<rparr>) w" for w
    by (simp add: consent_effect_def identify_isEnabled user_isEnabled split: option.splits)
  have e: "effects ctx w = effects (ctx\<lparr>isEnabled := True\<rparr>) w"
    by (simp add: effects_def d [symmetric] c [symmetric] split: prod.splits completion.splits)
  have h: "drain_effect ctx w = (Normal, (record_call a (call_of f w) w)\<lparr>queue := q\<rparr>)"
    if "analytics ctx = Some a" "analyticsRef_current w = Some a" "queue w = f # q"
      "method_of f (clients w a) = Some Returns"
    using drain_effect_head [OF that(1,2,3)] that(4) by simp
  show ?thesis
    using d [of w] c [of w] e h consent_effect_without_consent [of ctx w a]
    by blast
qed

theorem effects_ignore_enabled_flag_witness:
  "\<not> isEnabled example_disabled \<and> \<not> consent example_disabled
   \<and> user example_disabled null_id_world = ClientUser 0
   \<and> user_id (clients null_id_world 0) = None
   \<and> received (clients (consent_effect example_disabled null_id_world) 0)
       = [UserIdGet, UserIdSet None]
   \<and> deferredIdentity (consent_effect example_disabled example_world)
       = Some \<lparr>userId = ''u7'', traits = None\<rparr>
   \<and> queue null_id_world = [TrackClosure ''click'' [] True None]
   \<and> queue (snd (drain_effect example_disabled null_id_world)) = []
   \<and> received (clients (snd (drain_effect example_disabled null_id_world)) 0)
       = [Track ''click'' [] (buildOptions True example_world) None]"
proof -
  have d: "\<not> isEnabled example_disabled"
    by (simp add: example_disabled_def)
  have u: "user example_disabled null_id_world = ClientUser 0"
    "user example_disabled example_world = ClientUser 0"
    by (simp_all add: example_defs example_disabled_def null_id_world_def user_def)
  show ?thesis
    using d u
      effects_ignore_enabled_flag
        [OF d, of null_id_world 0 "TrackClosure ''click'' [] True None" "[]",
         THEN conjunct2, THEN conjunct2, THEN conjunct2]
      effects_ignore_enabled_flag
        [OF d, of example_world 0, THEN conjunct2, THEN conjunct2, THEN conjunct2,
         THEN conjunct1]
    by (simp add: example_defs example_disabled_def null_id_world_def record_call_def
          buildOptions_def)
qed

text \<open>
  The sentence that a non-null id is written to the deferred-identity store fails, with
  the flag false as with it true, for the empty string; the erasing call is made all the
  same.
\<close>

theorem disabled_empty_user_id_is_not_deferred:
  "\<not> isEnabled example_disabled \<and> \<not> consent example_disabled
   \<and> user_id (clients empty_id_world 0) = Some []
   \<and> received (clients (consent_effect example_disabled empty_id_world) 0)
       = [UserIdGet, UserIdSet None]
   \<and> deferredIdentity (consent_effect example_disabled empty_id_world) = None"
  by (simp add: example_defs example_disabled_def empty_id_world_def user_def consent_effect_def
        truthy_def record_call_def)

end
